theory Spec2Isabelle
  imports Complex_Main "HOL-Library.AList"
begin

section \<open>Python strings\<close>

text \<open>
  A Python \<open>str\<close> is modelled as a \<open>string\<close>: a list of characters, each character
  standing for one code point below 256, so that \<open>length\<close> is Python's \<open>len\<close>.
  \<open>str.strip()\<close> and \<open>str.lower()\<close> are the built-ins restricted to that range.
\<close>

definition is_space :: "char \<Rightarrow> bool" where
  "is_space c =
     (let n = (of_char c :: nat)
      in (9 \<le> n \<and> n \<le> 13) \<or> (28 \<le> n \<and> n \<le> 32) \<or> n = 133 \<or> n = 160)"

definition py_strip :: "string \<Rightarrow> string" where
  "py_strip s = rev (dropWhile is_space (rev (dropWhile is_space s)))"

definition lower_char :: "char \<Rightarrow> char" where
  "lower_char c =
     (let n = (of_char c :: nat)
      in if (65 \<le> n \<and> n \<le> 90) \<or> (192 \<le> n \<and> n \<le> 222 \<and> n \<noteq> 215)
         then char_of (n + 32) else c)"

definition py_lower :: "string \<Rightarrow> string" where
  "py_lower s = map lower_char s"

fun startswith :: "string \<Rightarrow> string \<Rightarrow> bool" where
  "startswith s [] = True"
| "startswith [] (p # ps) = False"
| "startswith (c # cs) (p # ps) = (c = p \<and> startswith cs ps)"

text \<open>\<open>py_in phrase s\<close> is Python's \<open>phrase in s\<close> on strings: substring containment.\<close>

fun py_in :: "string \<Rightarrow> string \<Rightarrow> bool" where
  "py_in phrase [] = (phrase = [])"
| "py_in phrase (c # cs) = (startswith (c # cs) phrase \<or> py_in phrase cs)"

section \<open>Values decoded by \<open>json.loads\<close>\<close>

text \<open>
  The extraction reply is decoded by \<open>json.loads\<close>, so a candidate value is any JSON
  value. A float is kept abstract: the code only observes whether it is non-zero
  (its truth value) and the text \<open>str\<close> gives for it. An object is the list of its
  items in insertion order.
\<close>

datatype json =
    JNull
  | JBool bool
  | JInt int
  | JFloat (nonzero: bool) (float_text: string)
  | JStr string
  | JList "json list"
  | JDict "(string \<times> json) list"

text \<open>Python's truth value of a decoded value (\<open>bool(v)\<close>).\<close>

fun truthy :: "json \<Rightarrow> bool" where
  "truthy JNull = False"
| "truthy (JBool b) = b"
| "truthy (JInt i) = (i \<noteq> 0)"
| "truthy (JFloat nz t) = nz"
| "truthy (JStr s) = (s \<noteq> [])"
| "truthy (JList xs) = (xs \<noteq> [])"
| "truthy (JDict kvs) = (kvs \<noteq> [])"

definition digit_char :: "nat \<Rightarrow> char" where
  "digit_char n = char_of (48 + n)"

fun str_nat :: "nat \<Rightarrow> string" where
  "str_nat n = (if n < 10 then [digit_char n] else str_nat (n div 10) @ [digit_char (n mod 10)])"

declare str_nat.simps [simp del]

definition str_int :: "int \<Rightarrow> string" where
  "str_int i = (if i < 0 then CHR ''-'' # str_nat (nat (- i)) else str_nat (nat i))"

definition hex_char :: "nat \<Rightarrow> char" where
  "hex_char n = (if n < 10 then char_of (48 + n) else char_of (87 + n))"

definition hex_escape :: "nat \<Rightarrow> string" where
  "hex_escape n = [CHR 0x5C, CHR ''x'', hex_char (n div 16), hex_char (n mod 16)]"

definition repr_char :: "char \<Rightarrow> char \<Rightarrow> string" where
  "repr_char quote c =
     (let n = (of_char c :: nat)
      in if c = quote \<or> c = CHR 0x5C then [CHR 0x5C, c]
         else if n = 9 then [CHR 0x5C, CHR ''t'']
         else if n = 10 then [CHR 0x5C, CHR ''n'']
         else if n = 13 then [CHR 0x5C, CHR ''r'']
         else if n < 32 \<or> n = 127 then hex_escape n
         else if n < 127 then [c]
         else if n \<le> 160 \<or> n = 173 then hex_escape n
         else [c])"

text \<open>\<open>repr\<close> of a \<open>str\<close>: single quotes, unless the text has a single and no double quote.\<close>

definition repr_str :: "string \<Rightarrow> string" where
  "repr_str s =
     (let quote = (if CHR 0x27 \<in> set s \<and> CHR 0x22 \<notin> set s then CHR 0x22 else CHR 0x27)
      in quote # concat (map (repr_char quote) s) @ [quote])"

fun join :: "string \<Rightarrow> string list \<Rightarrow> string" where
  "join sep [] = []"
| "join sep [x] = x"
| "join sep (x # y # ys) = x @ sep @ join sep (y # ys)"

fun py_repr :: "json \<Rightarrow> string" where
  "py_repr JNull = ''None''"
| "py_repr (JBool b) = (if b then ''True'' else ''False'')"
| "py_repr (JInt i) = str_int i"
| "py_repr (JFloat nz t) = t"
| "py_repr (JStr s) = repr_str s"
| "py_repr (JList xs) = ''['' @ join '', '' (map py_repr xs) @ '']''"
| "py_repr (JDict kvs) =
     ''{'' @ join '', '' (map (\<lambda>kv. repr_str (fst kv) @ '': '' @ py_repr (snd kv)) kvs) @ ''}''"

text \<open>\<open>str(v)\<close>: a string is itself, everything else prints as its \<open>repr\<close>.\<close>

fun py_str :: "json \<Rightarrow> string" where
  "py_str (JStr s) = s"
| "py_str v = py_repr v"

section \<open>Fact merger: the loop of \<open>chat\<close> over \<open>extracted.items()\<close>\<close>

text \<open>
  \<open>session["profile_data"]\<close> is a \<open>dict\<close> from \<open>str\<close> to \<open>str\<close> (only \<open>clean_v\<close> is ever
  stored): the list of its items in insertion order. \<open>AList.update\<close> is the dict
  assignment: it overwrites in place, or appends a new key at the end.
\<close>

type_synonym profile = "(string \<times> string) list"

definition sentinels :: "string list" where
  "sentinels = [''null'', ''none'', '''', ''n/a'', ''unknown'']"

definition profile_get :: "profile \<Rightarrow> string \<Rightarrow> string \<Rightarrow> string" where
  "profile_get p k d = (case map_of p k of None \<Rightarrow> d | Some v \<Rightarrow> v)"

text \<open>The condition of the \<open>if\<close> at lines 264-270.\<close>

definition accepted :: "json \<Rightarrow> bool" where
  "accepted v = (truthy v \<and> py_lower (py_strip (py_str v)) \<notin> set sentinels)"

text \<open>One iteration of the loop (lines 264-276).\<close>

definition merge_pair :: "profile \<Rightarrow> string \<times> json \<Rightarrow> profile" where
  "merge_pair p kv =
     (let k = fst kv; v = snd kv
      in if accepted v then
           (let clean_v = py_strip (py_str v);
                current = profile_get p k ''''
            in if current = [] \<or> length clean_v > length current
               then AList.update k clean_v p
               else p)
         else p)"

text \<open>The whole loop (line 263), over the items in order.\<close>

definition merge_facts :: "profile \<Rightarrow> (string \<times> json) list \<Rightarrow> profile" where
  "merge_facts p items = foldl merge_pair p items"

section \<open>Progress estimator (lines 278-279)\<close>

text \<open>
  \<open>profile_keys / 18\<close> is Python's true division. It is modelled by exact rational
  arithmetic, and \<open>int(...)\<close> by truncation toward zero. The double-precision result
  truncates to the same integer: the exact value \<open>50 * k / 9\<close> is either an integer
  (when 9 divides \<open>k\<close>, and then \<open>k / 18\<close> and its product with 100 are computed
  exactly) or at least \<open>1/9\<close> away from one, far more than the rounding error for any
  key count below \<open>10^13\<close>; above 18 keys correctly rounded division and
  multiplication keep the product at or above 100, where \<open>min\<close> cuts it off.
\<close>

definition py_int :: "rat \<Rightarrow> int" where
  "py_int q = (if q < 0 then \<lceil>q\<rceil> else \<lfloor>q\<rfloor>)"

definition compute_progress :: "nat \<Rightarrow> int" where
  "compute_progress profile_keys = min 100 (py_int ((of_nat profile_keys / 18) * 100))"

text \<open>The formula as the specification words it: \<open>floor(min(100, (key_count / 18) * 100))\<close>.\<close>

definition spec_progress :: "nat \<Rightarrow> int" where
  "spec_progress key_count = \<lfloor>min (100 :: rat) ((of_nat key_count / 18) * 100)\<rfloor>"

section \<open>Completion detector (lines 686-706)\<close>

definition stop_signals :: "string list" where
  "stop_signals =
     [''i think i have a good picture now'',
      ''i think i have a good sense'',
      ''i feel like i understand you well'',
      ''i've got a solid sense of where you're at'',
      ''ready to talk about a plan'',
      ''ready to talk about next steps'',
      ''think we have enough to start'',
      ''got a good understanding now'',
      ''i think that's all i need'',
      ''we've covered the main things'',
      ''ready to move forward'',
      ''have a good sense of your background'',
      ''ready to discuss'',
      ''i think we're good to go'',
      ''i have a pretty complete picture'']"

definition detect_stop :: "string \<Rightarrow> bool" where
  "detect_stop ai_reply =
     (let ai_lower = py_lower ai_reply
      in list_ex (\<lambda>phrase. py_in phrase ai_lower) stop_signals)"

section \<open>The session table\<close>

record turn =
  role :: string
  content :: string

text \<open>
  A row of table \<open>sessions\<close>, with the two JSON columns decoded (they are only ever
  written by \<open>json.dumps\<close> of a transcript and of a profile); column \<open>created_at\<close> is
  never read by \<open>get_session\<close> and is left out. The same record is the \<open>session\<close>
  dict that \<open>get_session\<close> returns.
\<close>

record session =
  sess_id :: string
  chat_history :: "turn list"
  profile_data :: profile
  is_complete :: bool

type_synonym store = "string \<rightharpoonup> session"

text \<open>
  A fault of the turn: an \<open>sqlite3\<close> operation raising, or \<open>extracted.items()\<close> on a
  decoded value that is not a dict.
\<close>

datatype fault = StorageFault | AttributeError

text \<open>\<open>init_db\<close> runs at every start of the process: it drops the table and creates it anew.\<close>

definition init_db :: "store \<Rightarrow> store" where
  "init_db db = Map.empty"

text \<open>
  \<open>get_session\<close>. Whether the database operation raises is an input (\<open>faults\<close>); a
  raising operation commits nothing.
\<close>

definition new_session :: "string \<Rightarrow> session" where
  "new_session sid = \<lparr>sess_id = sid, chat_history = [], profile_data = [], is_complete = False\<rparr>"

definition get_session :: "bool \<Rightarrow> string \<Rightarrow> store \<Rightarrow> fault + (session \<times> store)" where
  "get_session faults sid db =
     (if faults then Inl StorageFault
      else case db sid of
             Some row \<Rightarrow> Inr (row, db)
           | None \<Rightarrow> Inr (new_session sid, db(sid \<mapsto> new_session sid)))"

text \<open>\<open>save_session\<close>: an \<open>UPDATE ... WHERE session_id = ?\<close>, which changes no row when none matches.\<close>

definition save_session ::
  "bool \<Rightarrow> string \<Rightarrow> profile \<Rightarrow> turn list \<Rightarrow> bool \<Rightarrow> store \<Rightarrow> fault + store" where
  "save_session faults sid profile history flag db =
     (if faults then Inl StorageFault
      else case db sid of
             None \<Rightarrow> Inr db
           | Some row \<Rightarrow>
               Inr (db(sid \<mapsto> row\<lparr>chat_history := history, profile_data := profile,
                                  is_complete := flag\<rparr>)))"

definition delete_session :: "string \<Rightarrow> store \<Rightarrow> store" where
  "delete_session sid db = db(sid := None)"

definition get_session_data :: "bool \<Rightarrow> string \<Rightarrow> store \<Rightarrow> fault + (session \<times> store)" where
  "get_session_data faults sid db = get_session faults sid db"

section \<open>The turn orchestrator: \<open>chat\<close>\<close>

record request =
  session_id :: string
  message :: string
  is_first_message :: bool

record response =
  question :: string
  resp_is_complete :: bool
  progress :: int
  resp_session_id :: string

text \<open>
  What the extraction call and the decoding of its reply (lines 234-261) leave in
  \<open>extracted\<close>: the service or the reading of its text raised, the text was not JSON,
  or \<open>json.loads\<close> decoded a value.
\<close>

datatype extract_outcome = ServiceFault | InvalidJson | Decoded json

text \<open>
  The world outside one turn: whether the database raises on load and on save, and
  the two calls of the language model, as functions of what the prompts are built
  from. The extraction prompt is built from the last four turns, the message and the
  profile; the generation prompt from the profile, the last ten turns and the message.
  \<open>generate_reply\<close> gives \<open>response.text\<close>, or \<open>None\<close> when the call raises.
\<close>

record env =
  load_faults :: bool
  save_faults :: bool
  extract_reply :: "turn list \<Rightarrow> string \<Rightarrow> profile \<Rightarrow> extract_outcome"
  generate_reply :: "profile \<Rightarrow> turn list \<Rightarrow> string \<Rightarrow> string option"

datatype call = ExtractCall | GenerateCall

definition greeting :: string where
  "greeting = ''Hey, what's up? Tell me a bit about yourself to get started.''"

definition apology :: string where
  "apology = ''Sorry, something went wrong. Can you say that again?''"

text \<open>Lines 163-167: the last four turns, when there are at least four.\<close>

definition recent_chat :: "turn list \<Rightarrow> turn list" where
  "recent_chat h = (if length h \<ge> 4 then drop (length h - 4) h else h)"

text \<open>Lines 234-261: every failure of the extraction leaves \<open>extracted = {}\<close>.\<close>

definition extract_facts :: "env \<Rightarrow> session \<Rightarrow> string \<Rightarrow> json" where
  "extract_facts e s msg =
     (case extract_reply e (recent_chat (chat_history s)) msg (profile_data s) of
        ServiceFault \<Rightarrow> JDict []
      | InvalidJson \<Rightarrow> JDict []
      | Decoded j \<Rightarrow> j)"

text \<open>\<open>extracted.items()\<close>: only a dict has the method.\<close>

fun items :: "json \<Rightarrow> fault + (string \<times> json) list" where
  "items (JDict kvs) = Inr kvs"
| "items v = Inl AttributeError"

text \<open>Lines 670-684: the reply, or the apology when the generation call raises.\<close>

definition generate :: "env \<Rightarrow> session \<Rightarrow> string \<Rightarrow> string" where
  "generate e s msg =
     (case generate_reply e (profile_data s)
             (drop (length (chat_history s) - 10) (chat_history s)) msg of
        None \<Rightarrow> apology
      | Some text \<Rightarrow> py_strip text)"

text \<open>
  The body of the \<open>try\<close>, in three parts. Each gives the response or the fault that
  leaves the \<open>try\<close>, the table, and the calls made to the language model. Logging
  and the two-second sleep after a failed call do not change the result and are
  left out.
\<close>

definition first_message ::
  "env \<Rightarrow> request \<Rightarrow> session \<Rightarrow> store \<Rightarrow> (fault + response) \<times> store \<times> call list" where
  "first_message e req s db =
     (let s1 = s\<lparr>chat_history := chat_history s @ [\<lparr>role = ''assistant'', content = greeting\<rparr>]\<rparr>
      in case save_session (save_faults e) (session_id req) (profile_data s1) (chat_history s1)
                False db of
           Inl f \<Rightarrow> (Inl f, db, [])
         | Inr db' \<Rightarrow>
             (Inr \<lparr>question = greeting, resp_is_complete = False, progress = 0,
                   resp_session_id = session_id req\<rparr>, db', []))"

definition reply_and_save ::
  "env \<Rightarrow> request \<Rightarrow> session \<Rightarrow> store \<Rightarrow> call list \<Rightarrow> (fault + response) \<times> store \<times> call list" where
  "reply_and_save e req s db calls =
     (let profile_keys = length (profile_data s);
          prog = compute_progress profile_keys;
          ai_reply = generate e s (message req);
          s1 = (if detect_stop ai_reply then s\<lparr>is_complete := True\<rparr> else s);
          s2 = s1\<lparr>chat_history := chat_history s1 @ [\<lparr>role = ''assistant'', content = ai_reply\<rparr>]\<rparr>
      in case save_session (save_faults e) (session_id req) (profile_data s2) (chat_history s2)
                (is_complete s2) db of
           Inl f \<Rightarrow> (Inl f, db, calls @ [GenerateCall])
         | Inr db' \<Rightarrow>
             (Inr \<lparr>question = ai_reply, resp_is_complete = is_complete s2, progress = prog,
                   resp_session_id = session_id req\<rparr>, db', calls @ [GenerateCall]))"

definition later_message ::
  "env \<Rightarrow> request \<Rightarrow> session \<Rightarrow> store \<Rightarrow> (fault + response) \<times> store \<times> call list" where
  "later_message e req s db =
     (if py_strip (message req) \<noteq> [] then
        (let s1 = s\<lparr>chat_history := chat_history s @ [\<lparr>role = ''user'', content = message req\<rparr>]\<rparr>;
             extracted = extract_facts e s1 (message req)
         in case items extracted of
              Inl f \<Rightarrow> (Inl f, db, [ExtractCall])
            | Inr kvs \<Rightarrow>
                reply_and_save e req (s1\<lparr>profile_data := merge_facts (profile_data s1) kvs\<rparr>)
                  db [ExtractCall])
      else reply_and_save e req s db [])"

definition chat_try ::
  "env \<Rightarrow> request \<Rightarrow> store \<Rightarrow> (fault + response) \<times> store \<times> call list" where
  "chat_try e req db =
     (case get_session (load_faults e) (session_id req) db of
        Inl f \<Rightarrow> (Inl f, db, [])
      | Inr (s, db1) \<Rightarrow>
          if is_first_message req then first_message e req s db1
          else later_message e req s db1)"

text \<open>Lines 728-735: what the \<open>except Exception\<close> clause returns.\<close>

definition fallback :: "request \<Rightarrow> response" where
  "fallback req =
     \<lparr>question = apology, resp_is_complete = False, progress = 0,
      resp_session_id = session_id req\<rparr>"

text \<open>
  \<open>chat\<close>: the \<open>try\<close> with its handler. The first component is \<open>Inr\<close> of the response
  the caller receives, or \<open>Inl\<close> of a fault that would leave the function.
\<close>

definition chat ::
  "env \<Rightarrow> request \<Rightarrow> store \<Rightarrow> (fault + response) \<times> store \<times> call list" where
  "chat e req db =
     (case chat_try e req db of
        (Inl f, db', calls) \<Rightarrow> (Inr (fallback req), db', calls)
      | (Inr r, db', calls) \<Rightarrow> (Inr r, db', calls))"

text \<open>The operations that reach the table: the start of the process and the endpoints.\<close>

datatype operation =
    Startup
  | Chat env request
  | GetSession bool string
  | ListSessions
  | DeleteSession string
  | Health

fun run_op :: "operation \<Rightarrow> store \<Rightarrow> store" where
  "run_op Startup db = init_db db"
| "run_op (Chat e req) db = fst (snd (chat e req db))"
| "run_op (GetSession faults sid) db =
     (case get_session_data faults sid db of Inl f \<Rightarrow> db | Inr (s, db') \<Rightarrow> db')"
| "run_op ListSessions db = db"
| "run_op (DeleteSession sid) db = delete_session sid db"
| "run_op Health db = db"

section \<open>Notions used to state the properties\<close>

text \<open>The completion flag of the stored row of a session; false when there is no row.\<close>

definition persisted_complete :: "store \<Rightarrow> string \<Rightarrow> bool" where
  "persisted_complete db sid = (case db sid of None \<Rightarrow> False | Some row \<Rightarrow> is_complete row)"

text \<open>The session a turn starts from: the stored row, or the empty session of a new id.\<close>

definition prior_session :: "store \<Rightarrow> string \<Rightarrow> session" where
  "prior_session db sid = (case db sid of None \<Rightarrow> new_session sid | Some row \<Rightarrow> row)"

text \<open>A sequence of turns, each in its own world, run one after the other on the table.\<close>

fun run_turns :: "(env \<times> request) list \<Rightarrow> store \<Rightarrow> store" where
  "run_turns [] db = db"
| "run_turns (t # ts) db = run_turns ts (run_op (Chat (fst t) (snd t)) db)"

subsection \<open>Concrete inputs\<close>

definition ok_env :: env where
  "ok_env = \<lparr>load_faults = False, save_faults = False,
             extract_reply = (\<lambda>h m p. Decoded (JDict [(''student_name'', JStr ''Arham'')])),
             generate_reply = (\<lambda>p h m. Some ''Nice! What year are you in?'')\<rparr>"

text \<open>The extraction reply decodes to a JSON array instead of an object.\<close>

definition list_env :: env where
  "list_env = \<lparr>load_faults = False, save_faults = False,
             extract_reply = (\<lambda>h m p. Decoded (JList [])),
             generate_reply = (\<lambda>p h m. Some ''Nice! What year are you in?'')\<rparr>"

definition load_fault_env :: env where
  "load_fault_env = ok_env\<lparr>load_faults := True\<rparr>"

definition save_fault_env :: env where
  "save_fault_env = ok_env\<lparr>save_faults := True\<rparr>"

text \<open>A table with one session, already complete.\<close>

definition done_db :: store where
  "done_db = Map.empty(''s1'' \<mapsto> \<lparr>sess_id = ''s1'', chat_history = [], profile_data = [],
                                   is_complete = True\<rparr>)"

definition first_req :: request where
  "first_req = \<lparr>session_id = ''s1'', message = '''', is_first_message = True\<rparr>"

definition name_req :: request where
  "name_req = \<lparr>session_id = ''s1'', message = ''I am Arham'', is_first_message = False\<rparr>"

section \<open>Properties of the fact merger\<close>

lemma accepted_nonempty: "accepted v \<Longrightarrow> py_strip (py_str v) \<noteq> []"
  by (auto simp: accepted_def sentinels_def py_lower_def)

lemma accepted_JStr: "accepted (JStr s) \<longleftrightarrow> py_lower (py_strip s) \<notin> set sentinels"
proof -
  have "py_lower (py_strip []) \<in> set sentinels"
    by (simp add: py_lower_def py_strip_def sentinels_def)
  then show ?thesis by (auto simp: accepted_def)
qed

lemma merge_pair_rejected: "\<not> accepted v \<Longrightarrow> merge_pair p (k, v) = p"
  by (simp add: merge_pair_def)

lemma merge_pair_other_key: "k' \<noteq> k \<Longrightarrow> map_of (merge_pair p (k', v)) k = map_of p k"
  by (simp add: merge_pair_def Let_def update_conv')

lemma merge_facts_unchanged_at:
  "(\<And>v. (k, v) \<in> set kvs \<Longrightarrow> \<not> accepted v) \<Longrightarrow> map_of (merge_facts p kvs) k = map_of p k"
  unfolding merge_facts_def
proof (induction kvs arbitrary: p)
  case Nil
  show ?case by simp
next
  case (Cons kv kvs)
  obtain k' v where kv: "kv = (k', v)" by (cases kv)
  have step: "map_of (merge_pair p kv) k = map_of p k"
  proof (cases "k' = k")
    case True
    with Cons.prems kv have "\<not> accepted v" by simp
    then show ?thesis by (simp add: kv merge_pair_rejected)
  next
    case False
    then show ?thesis by (simp add: kv merge_pair_other_key)
  qed
  have "map_of (foldl merge_pair (merge_pair p kv) kvs) k = map_of (merge_pair p kv) k"
    by (rule Cons.IH) (simp add: Cons.prems)
  with step show ?case by simp
qed

lemma merge_pair_present:
  assumes "map_of p k = Some old" and "accepted v"
  shows "merge_pair p (k, v) =
           (if length (py_strip (py_str v)) > length old
            then AList.update k (py_strip (py_str v)) p else p)"
  using assms accepted_nonempty [OF assms(2)]
  by (auto simp: merge_pair_def profile_get_def Let_def)

lemma merge_pair_at_key_cong:
  "map_of p k = map_of q k \<Longrightarrow> map_of (merge_pair p (k, v)) k = map_of (merge_pair q (k, v)) k"
  by (simp add: merge_pair_def profile_get_def Let_def update_conv')

text \<open>
  The whole loop over the items of a dict (no key twice), seen at one key: the entry
  is the one a single iteration with that key's candidate gives, and it is untouched
  when the key has no candidate.
\<close>

lemma merge_facts_distinct_at:
  "distinct (map fst kvs) \<Longrightarrow>
   map_of (merge_facts p kvs) k =
     (case map_of kvs k of None \<Rightarrow> map_of p k | Some v \<Rightarrow> map_of (merge_pair p (k, v)) k)"
  unfolding merge_facts_def
proof (induction kvs arbitrary: p)
  case Nil
  show ?case by simp
next
  case (Cons kv kvs)
  obtain k' v' where kv: "kv = (k', v')" by (cases kv)
  from Cons.prems kv have fresh: "k' \<notin> fst ` set kvs" and dist: "distinct (map fst kvs)"
    by simp_all
  have IH: "map_of (foldl merge_pair (merge_pair p kv) kvs) k =
     (case map_of kvs k of None \<Rightarrow> map_of (merge_pair p kv) k
      | Some v \<Rightarrow> map_of (merge_pair (merge_pair p kv) (k, v)) k)"
    by (rule Cons.IH [OF dist])
  show ?case
  proof (cases "k = k'")
    case True
    with fresh have "map_of kvs k = None" by (simp add: map_of_eq_None_iff)
    with IH True kv show ?thesis by simp
  next
    case False
    then have same: "map_of (merge_pair p kv) k = map_of p k"
      by (simp add: kv merge_pair_other_key)
    have "map_of (merge_pair (merge_pair p kv) (k, v)) k = map_of (merge_pair p (k, v)) k" for v
      by (rule merge_pair_at_key_cong [OF same])
    with IH same False kv show ?thesis by (simp split: option.splits)
  qed
qed

lemma merge_facts_present:
  assumes "map_of p k = Some old" and "distinct (map fst kvs)" and "(k, v) \<in> set kvs"
    and "accepted v"
  shows "map_of (merge_facts p kvs) k =
           Some (if length (py_strip (py_str v)) > length old then py_strip (py_str v) else old)"
proof -
  from assms(2,3) have "map_of kvs k = Some v" by (simp add: map_of_eq_Some_iff)
  with merge_facts_distinct_at [OF assms(2), of p k]
  have "map_of (merge_facts p kvs) k = map_of (merge_pair p (k, v)) k" by simp
  with merge_pair_present [OF assms(1,4)] assms(1) show ?thesis
    by (simp add: update_conv')
qed

lemma merge_facts_falsy:
  assumes "map_of p k = Some old" and "distinct (map fst kvs)" and "(k, v) \<in> set kvs"
    and "\<not> truthy v"
  shows "map_of (merge_facts p kvs) k = Some old"
proof -
  from assms(2,3) have "map_of kvs k = Some v" by (simp add: map_of_eq_Some_iff)
  with merge_facts_distinct_at [OF assms(2), of p k]
  have "map_of (merge_facts p kvs) k = map_of (merge_pair p (k, v)) k" by simp
  with assms(1,4) show ?thesis by (simp add: merge_pair_rejected accepted_def)
qed

text \<open>
  C1 as stated fails: the JSON value \<open>false\<close> passes the sentinel test and its text
  "False" is longer than the stored "no", yet the stored value is kept, because the
  filter of the loop first asks for a truthy value.
\<close>

theorem overwrite_rejects_longer_falsy:
  "map_of [(''visa'', ''no'')] ''visa'' = Some ''no''
   \<and> py_lower (py_strip (py_str (JBool False))) \<notin> set sentinels
   \<and> length (py_strip (py_str (JBool False))) > length ''no''
   \<and> merge_facts [(''visa'', ''no'')] [(''visa'', JBool False)] = [(''visa'', ''no'')]"
proof -
  have present: "map_of [(''visa'', ''no'')] ''visa'' = Some ''no''" by simp
  have passes: "py_lower (py_strip (py_str (JBool False))) \<notin> set sentinels" by code_simp
  have longer: "length (py_strip (py_str (JBool False))) > length ''no''" by code_simp
  have kept: "merge_facts [(''visa'', ''no'')] [(''visa'', JBool False)] = [(''visa'', ''no'')]"
    by code_simp
  from present passes longer kept show ?thesis by blast
qed

text \<open>
  C1, as the code has it. Let key \<open>k\<close> be in the profile with value \<open>old\<close>, and let the
  candidate value \<open>v\<close> be truthy and pass the sentinel test. Then one iteration stores
  the trimmed value of \<open>v\<close> at \<open>k\<close> exactly when it is strictly longer than \<open>old\<close> and
  otherwise leaves the profile as it is; and the whole merge of a candidate dict that
  holds \<open>v\<close> at \<open>k\<close> ends at \<open>k\<close> with the trimmed value when it is strictly longer,
  and keeps \<open>old\<close> when it is of equal or shorter length. For a string candidate the
  sentinel test alone is enough. A candidate that is not truthy leaves \<open>old\<close> in
  place. Candidate "Lahore" replaces "LHR", also with blanks around it and after
  another pair; candidates "LHR", "X" and a blank-padded "LHR" against "Lahore"
  change nothing.
\<close>

theorem merge_overwrite_only_if_longer:
  "(map_of p k = Some old \<and> truthy v \<and> py_lower (py_strip (py_str v)) \<notin> set sentinels \<longrightarrow>
      merge_pair p (k, v) =
        (if length (py_strip (py_str v)) > length old
         then AList.update k (py_strip (py_str v)) p else p)
      \<and> (distinct (map fst kvs) \<and> (k, v) \<in> set kvs \<longrightarrow>
           map_of (merge_facts p kvs) k =
             Some (if length (py_strip (py_str v)) > length old
                   then py_strip (py_str v) else old)))
   \<and> (map_of p k = Some old \<and> py_lower (py_strip s) \<notin> set sentinels
        \<and> distinct (map fst kvs) \<and> (k, JStr s) \<in> set kvs \<longrightarrow>
        map_of (merge_facts p kvs) k =
          Some (if length (py_strip s) > length old then py_strip s else old))
   \<and> (map_of p k = Some old \<and> \<not> truthy v \<and> distinct (map fst kvs) \<and> (k, v) \<in> set kvs \<longrightarrow>
        map_of (merge_facts p kvs) k = Some old)
   \<and> merge_facts [(''city'', ''LHR'')] [(''city'', JStr ''Lahore'')] = [(''city'', ''Lahore'')]
   \<and> merge_facts [(''city'', ''LHR'')] [(''city'', JStr ''LHR'')] = [(''city'', ''LHR'')]
   \<and> merge_facts [(''city'', ''LHR'')] [(''city'', JStr ''X'')] = [(''city'', ''LHR'')]
   \<and> merge_facts [(''city'', ''LHR'')] [(''name'', JStr ''Arham''), (''city'', JStr ''  Lahore '')]
       = [(''city'', ''Lahore''), (''name'', ''Arham'')]
   \<and> merge_facts [(''city'', ''Lahore'')] [(''city'', JStr ''   LHR   '')] = [(''city'', ''Lahore'')]"
proof -
  have general: "map_of p k = Some old \<and> truthy v \<and> py_lower (py_strip (py_str v)) \<notin> set sentinels \<longrightarrow>
      merge_pair p (k, v) =
        (if length (py_strip (py_str v)) > length old
         then AList.update k (py_strip (py_str v)) p else p)
      \<and> (distinct (map fst kvs) \<and> (k, v) \<in> set kvs \<longrightarrow>
           map_of (merge_facts p kvs) k =
             Some (if length (py_strip (py_str v)) > length old
                   then py_strip (py_str v) else old))"
    using merge_pair_present [of p k old v] merge_facts_present [of p k old kvs v]
    by (simp add: accepted_def)
  have strings: "map_of p k = Some old \<and> py_lower (py_strip s) \<notin> set sentinels
        \<and> distinct (map fst kvs) \<and> (k, JStr s) \<in> set kvs \<longrightarrow>
        map_of (merge_facts p kvs) k =
          Some (if length (py_strip s) > length old then py_strip s else old)"
    using merge_facts_present [of p k old kvs "JStr s"] by (simp add: accepted_JStr)
  have falsy: "map_of p k = Some old \<and> \<not> truthy v \<and> distinct (map fst kvs) \<and> (k, v) \<in> set kvs \<longrightarrow>
        map_of (merge_facts p kvs) k = Some old"
    using merge_facts_falsy [of p k old kvs v] by simp
  have longer: "merge_facts [(''city'', ''LHR'')] [(''city'', JStr ''Lahore'')] = [(''city'', ''Lahore'')]"
    by code_simp
  have equal: "merge_facts [(''city'', ''LHR'')] [(''city'', JStr ''LHR'')] = [(''city'', ''LHR'')]"
    by code_simp
  have shorter: "merge_facts [(''city'', ''LHR'')] [(''city'', JStr ''X'')] = [(''city'', ''LHR'')]"
    by code_simp
  have padded: "merge_facts [(''city'', ''LHR'')]
        [(''name'', JStr ''Arham''), (''city'', JStr ''  Lahore '')]
       = [(''city'', ''Lahore''), (''name'', ''Arham'')]"
    by code_simp
  have padded_short: "merge_facts [(''city'', ''Lahore'')] [(''city'', JStr ''   LHR   '')]
       = [(''city'', ''Lahore'')]"
    by code_simp
  from general strings falsy longer equal shorter padded padded_short show ?thesis by blast
qed

theorem merge_overwrite_only_if_longer_witness:
  "map_of [(''city'', ''LHR'')] ''city'' = Some ''LHR''
   \<and> truthy (JStr ''  Lahore '')
   \<and> py_lower (py_strip (py_str (JStr ''  Lahore ''))) \<notin> set sentinels
   \<and> distinct (map fst [(''name'', JStr ''Arham''), (''city'', JStr ''  Lahore '')])
   \<and> merge_pair [(''city'', ''LHR'')] (''city'', JStr ''  Lahore '') = [(''city'', ''Lahore'')]
   \<and> map_of (merge_facts [(''city'', ''LHR'')]
        [(''name'', JStr ''Arham''), (''city'', JStr ''  Lahore '')]) ''city'' = Some ''Lahore''"
proof -
  have h1: "map_of [(''city'', ''LHR'')] ''city'' = Some ''LHR''" by simp
  have h2: "truthy (JStr ''  Lahore '')" by simp
  have h3: "py_lower (py_strip (py_str (JStr ''  Lahore ''))) \<notin> set sentinels" by code_simp
  have h4: "distinct (map fst [(''name'', JStr ''Arham''), (''city'', JStr ''  Lahore '')])"
    by simp
  have h5: "(''city'', JStr ''  Lahore '')
              \<in> set [(''name'', JStr ''Arham''), (''city'', JStr ''  Lahore '')]"
    by simp
  have clean: "py_strip ''  Lahore '' = ''Lahore''" by code_simp
  from merge_overwrite_only_if_longer [of "[(''city'', ''LHR'')]" "''city''" "''LHR''"
      "JStr ''  Lahore ''" "[(''name'', JStr ''Arham''), (''city'', JStr ''  Lahore '')]"]
    h1 h2 h3 h4 h5
  have "merge_pair [(''city'', ''LHR'')] (''city'', JStr ''  Lahore '') =
        (if length (py_strip (py_str (JStr ''  Lahore ''))) > length ''LHR''
         then AList.update ''city'' (py_strip (py_str (JStr ''  Lahore ''))) [(''city'', ''LHR'')]
         else [(''city'', ''LHR'')])
      \<and> map_of (merge_facts [(''city'', ''LHR'')]
            [(''name'', JStr ''Arham''), (''city'', JStr ''  Lahore '')]) ''city'' =
        Some (if length (py_strip (py_str (JStr ''  Lahore ''))) > length ''LHR''
              then py_strip (py_str (JStr ''  Lahore '')) else ''LHR'')"
    by blast
  then have "merge_pair [(''city'', ''LHR'')] (''city'', JStr ''  Lahore '') = [(''city'', ''Lahore'')]
      \<and> map_of (merge_facts [(''city'', ''LHR'')]
            [(''name'', JStr ''Arham''), (''city'', JStr ''  Lahore '')]) ''city'' = Some ''Lahore''"
    by (simp add: clean)
  with h1 h2 h3 h4 show ?thesis by blast
qed

text \<open>
  C3. Sentinel rejection. A candidate whose trimmed, lower-cased text is empty or one
  of "null", "none", "n/a", "unknown" leaves the profile unchanged; and when every
  candidate for key \<open>k\<close> is such a value, the whole merge leaves the profile's entry
  for \<open>k\<close> as it was, whatever the other candidates are.
\<close>

theorem sentinel_rejection:
  "(py_lower (py_strip (py_str v)) \<in> set sentinels \<longrightarrow> merge_pair p (k, v) = p)
   \<and> ((\<forall>v. (k, v) \<in> set kvs \<longrightarrow> py_lower (py_strip (py_str v)) \<in> set sentinels)
        \<longrightarrow> map_of (merge_facts p kvs) k = map_of p k)"
proof -
  have one: "py_lower (py_strip (py_str v)) \<in> set sentinels \<longrightarrow> merge_pair p (k, v) = p"
    by (simp add: merge_pair_rejected accepted_def)
  have "map_of (merge_facts p kvs) k = map_of p k"
    if "\<forall>v. (k, v) \<in> set kvs \<longrightarrow> py_lower (py_strip (py_str v)) \<in> set sentinels"
    using that by (intro merge_facts_unchanged_at) (auto simp: accepted_def)
  with one show ?thesis by blast
qed

theorem sentinel_rejection_witness:
  "py_lower (py_strip (py_str (JStr ''  UnKnown ''))) \<in> set sentinels
   \<and> merge_pair [(''city'', ''LHR'')] (''city'', JStr ''  UnKnown '') = [(''city'', ''LHR'')]
   \<and> map_of (merge_facts [(''city'', ''LHR'')]
        [(''city'', JStr ''  UnKnown ''), (''name'', JStr ''Arham''), (''city'', JStr ''N/A'')])
        ''city'' = Some ''LHR''"
proof -
  have h1: "py_lower (py_strip (py_str (JStr ''  UnKnown ''))) \<in> set sentinels" by code_simp
  have h2: "py_lower (py_strip (py_str (JStr ''N/A''))) \<in> set sentinels" by code_simp
  have h3: "\<forall>v. (''city'', v) \<in> set [(''city'', JStr ''  UnKnown ''), (''name'', JStr ''Arham''),
                (''city'', JStr ''N/A'')]
              \<longrightarrow> py_lower (py_strip (py_str v)) \<in> set sentinels"
    using h1 h2 by auto
  from sentinel_rejection [of "JStr ''  UnKnown ''" "[(''city'', ''LHR'')]" "''city''"
      "[(''city'', JStr ''  UnKnown ''), (''name'', JStr ''Arham''), (''city'', JStr ''N/A'')]"] h1 h3
  show ?thesis by simp
qed

text \<open>
  C9. Falsy candidates are rejected before the sentinel test. A candidate whose truth
  value is false (0, false, null, an empty list) leaves the profile unchanged, and
  when every candidate for key \<open>k\<close> is falsy the merge leaves the entry for \<open>k\<close> as it
  was; this holds although the texts "0", "false" and "[]" are not sentinels.
\<close>

theorem falsy_rejection:
  "(\<not> truthy v \<longrightarrow> merge_pair p (k, v) = p)
   \<and> ((\<forall>v. (k, v) \<in> set kvs \<longrightarrow> \<not> truthy v) \<longrightarrow> map_of (merge_facts p kvs) k = map_of p k)
   \<and> \<not> truthy (JInt 0) \<and> py_lower (py_strip (py_str (JInt 0))) \<notin> set sentinels
   \<and> \<not> truthy (JBool False) \<and> py_lower (py_strip (py_str (JBool False))) \<notin> set sentinels
   \<and> \<not> truthy (JList []) \<and> py_lower (py_strip (py_str (JList []))) \<notin> set sentinels
   \<and> \<not> truthy JNull"
proof -
  have one: "\<not> truthy v \<longrightarrow> merge_pair p (k, v) = p"
    by (simp add: merge_pair_rejected accepted_def)
  have all: "map_of (merge_facts p kvs) k = map_of p k"
    if "\<forall>v. (k, v) \<in> set kvs \<longrightarrow> \<not> truthy v"
    using that by (intro merge_facts_unchanged_at) (auto simp: accepted_def)
  have zero: "\<not> truthy (JInt 0) \<and> py_lower (py_strip (py_str (JInt 0))) \<notin> set sentinels"
    by code_simp
  have false: "\<not> truthy (JBool False) \<and> py_lower (py_strip (py_str (JBool False))) \<notin> set sentinels"
    by code_simp
  have nil: "\<not> truthy (JList []) \<and> py_lower (py_strip (py_str (JList []))) \<notin> set sentinels"
    by code_simp
  from one all zero false nil show ?thesis by simp
qed

theorem falsy_rejection_witness:
  "\<not> truthy (JInt 0)
   \<and> merge_pair [] (''siblings'', JInt 0) = []
   \<and> map_of (merge_facts [] [(''siblings'', JInt 0), (''name'', JStr ''Arham''),
        (''siblings'', JBool False)]) ''siblings'' = None"
proof -
  have h1: "\<not> truthy (JInt 0)" by simp
  have h2: "\<forall>v. (''siblings'', v) \<in> set [(''siblings'', JInt 0), (''name'', JStr ''Arham''),
                (''siblings'', JBool False)] \<longrightarrow> \<not> truthy v"
    by auto
  from falsy_rejection [of "JInt 0" "[]" "''siblings''"
      "[(''siblings'', JInt 0), (''name'', JStr ''Arham''), (''siblings'', JBool False)]"] h1 h2
  show ?thesis by simp
qed

section \<open>Properties of the progress estimator\<close>

lemma compute_progress_div: "compute_progress k = min 100 ((100 * int k) div 18)"
proof -
  have nonneg: "\<not> ((of_nat k / 18) * 100 :: rat) < 0" by simp
  have "((of_nat k / 18) * 100 :: rat) = of_int (100 * int k) / of_int 18" by simp
  then have "\<lfloor>(of_nat k / 18) * 100 :: rat\<rfloor> = (100 * int k) div 18"
    by (simp only: floor_divide_of_int_eq)
  with nonneg show ?thesis by (simp add: compute_progress_def py_int_def)
qed

lemma spec_progress_div: "spec_progress k = min 100 ((100 * int k) div 18)"
proof -
  have "((of_nat k / 18) * 100 :: rat) = of_int (100 * int k) / of_int 18" by simp
  then have fl: "\<lfloor>(of_nat k / 18) * 100 :: rat\<rfloor> = (100 * int k) div 18"
    by (simp only: floor_divide_of_int_eq)
  have m: "\<lfloor>min (100 :: rat) ((of_nat k / 18) * 100)\<rfloor>
          = min \<lfloor>100 :: rat\<rfloor> \<lfloor>(of_nat k / 18) * 100 :: rat\<rfloor>"
    by (simp add: min_def floor_mono)
  show ?thesis unfolding spec_progress_def by (simp only: m fl floor_numeral)
qed

text \<open>
  C4. Progress estimator. The progress computed from \<open>k\<close> profile keys equals
  \<open>floor(min(100, (k / 18) * 100))\<close>; it lies between 0 and 100, is 0 for the empty
  profile, is 100 from 18 keys on, and never decreases when the key count grows.
\<close>

theorem progress_estimator:
  "compute_progress k = spec_progress k
   \<and> 0 \<le> compute_progress k \<and> compute_progress k \<le> 100
   \<and> compute_progress 0 = 0
   \<and> (18 \<le> k \<longrightarrow> compute_progress k = 100)
   \<and> (j \<le> k \<longrightarrow> compute_progress j \<le> compute_progress k)"
proof -
  have mono: "j \<le> k \<Longrightarrow> (100 * int j) div 18 \<le> (100 * int k) div 18"
    by (rule zdiv_mono1) simp_all
  show ?thesis
    unfolding compute_progress_div spec_progress_div using mono by auto
qed

theorem progress_estimator_witness:
  "(18 :: nat) \<le> 20 \<and> compute_progress 20 = 100 \<and> spec_progress 20 = 100
   \<and> (3 :: nat) \<le> 20 \<and> compute_progress 3 \<le> compute_progress 20"
  using progress_estimator [of 20 3] by simp

section \<open>Properties of the session table and of \<open>chat\<close>\<close>

lemma get_session_cases:
  "get_session faults sid db =
     (if faults then Inl StorageFault else Inr (prior_session db sid, db(sid \<mapsto> prior_session db sid)))"
  by (auto simp: get_session_def prior_session_def split: option.splits)

lemma save_session_after_load:
  "save_session faults sid p h c (db(sid \<mapsto> row)) =
     (if faults then Inl StorageFault
      else Inr (db(sid \<mapsto> row\<lparr>chat_history := h, profile_data := p, is_complete := c\<rparr>)))"
  by (simp add: save_session_def)

lemma first_message_result:
  "first_message e req s (db(session_id req \<mapsto> s)) =
     (if save_faults e then (Inl StorageFault, db(session_id req \<mapsto> s), [])
      else (Inr \<lparr>question = greeting, resp_is_complete = False, progress = 0,
                  resp_session_id = session_id req\<rparr>,
            db(session_id req \<mapsto> s\<lparr>chat_history := chat_history s @ [\<lparr>role = ''assistant'', content = greeting\<rparr>],
                 is_complete := False\<rparr>), []))"
  by (simp add: first_message_def save_session_after_load Let_def)

lemma reply_and_save_result:
  "reply_and_save e req s (db(session_id req \<mapsto> row)) calls =
     (let ai_reply = generate e s (message req);
          c = (detect_stop ai_reply \<or> is_complete s)
      in if save_faults e then (Inl StorageFault, db(session_id req \<mapsto> row), calls @ [GenerateCall])
         else (Inr \<lparr>question = ai_reply, resp_is_complete = c,
                    progress = compute_progress (length (profile_data s)),
                    resp_session_id = session_id req\<rparr>,
               db(session_id req \<mapsto> row\<lparr>chat_history := chat_history s @ [\<lparr>role = ''assistant'', content = ai_reply\<rparr>],
                    profile_data := profile_data s, is_complete := c\<rparr>),
               calls @ [GenerateCall]))"
  by (simp add: reply_and_save_def save_session_after_load Let_def)


lemma chat_try_first:
  "is_first_message req \<Longrightarrow>
   chat_try e req db =
     (if load_faults e then (Inl StorageFault, db, [])
      else first_message e req (prior_session db (session_id req))
             (db(session_id req \<mapsto> prior_session db (session_id req))))"
  by (simp add: chat_try_def get_session_cases)

lemma chat_try_later:
  "\<not> is_first_message req \<Longrightarrow>
   chat_try e req db =
     (if load_faults e then (Inl StorageFault, db, [])
      else later_message e req (prior_session db (session_id req))
             (db(session_id req \<mapsto> prior_session db (session_id req))))"
  by (simp add: chat_try_def get_session_cases)

lemma chat_first:
  assumes "is_first_message req"
  shows "chat e req db =
     (if load_faults e then (Inr (fallback req), db, [])
      else if save_faults e
        then (Inr (fallback req), db(session_id req \<mapsto> prior_session db (session_id req)), [])
      else (Inr \<lparr>question = greeting, resp_is_complete = False, progress = 0,
                  resp_session_id = session_id req\<rparr>,
            db(session_id req \<mapsto> (prior_session db (session_id req))
                 \<lparr>chat_history := chat_history (prior_session db (session_id req))
                      @ [\<lparr>role = ''assistant'', content = greeting\<rparr>],
                  is_complete := False\<rparr>), []))"
  using assms by (simp add: chat_def chat_try_first first_message_result)

text \<open>
  C5. First-message short-circuit. A turn flagged \<open>is_first_message\<close> makes no call to
  the language model and answers with progress 0 and complete false. When the
  database operations of the turn do not raise, the answer is the fixed greeting,
  and the stored transcript of the session is the transcript the turn started from
  followed by exactly one assistant turn, the greeting; the profile and the other
  sessions are untouched.
\<close>

theorem first_message_short_circuit:
  "is_first_message req \<longrightarrow>
     snd (snd (chat e req db)) = []
     \<and> (\<exists>r. fst (chat e req db) = Inr r \<and> progress r = 0 \<and> \<not> resp_is_complete r
              \<and> resp_session_id r = session_id req)
     \<and> (\<not> load_faults e \<and> \<not> save_faults e \<longrightarrow>
          fst (chat e req db) =
            Inr \<lparr>question = greeting, resp_is_complete = False, progress = 0,
                 resp_session_id = session_id req\<rparr>
          \<and> (\<exists>row. fst (snd (chat e req db)) (session_id req) = Some row
                \<and> chat_history row = chat_history (prior_session db (session_id req))
                      @ [\<lparr>role = ''assistant'', content = greeting\<rparr>]
                \<and> profile_data row = profile_data (prior_session db (session_id req)))
          \<and> (\<forall>sid. sid \<noteq> session_id req \<longrightarrow> fst (snd (chat e req db)) sid = db sid))"
  by (simp add: chat_first fallback_def)

theorem first_message_short_circuit_witness:
  "is_first_message first_req \<and> \<not> load_faults ok_env \<and> \<not> save_faults ok_env
   \<and> snd (snd (chat ok_env first_req Map.empty)) = []
   \<and> fst (chat ok_env first_req Map.empty)
       = Inr \<lparr>question = greeting, resp_is_complete = False, progress = 0, resp_session_id = ''s1''\<rparr>
   \<and> map_option chat_history (fst (snd (chat ok_env first_req Map.empty)) ''s1'')
       = Some [\<lparr>role = ''assistant'', content = greeting\<rparr>]"
proof -
  have h: "is_first_message first_req" "\<not> load_faults ok_env" "\<not> save_faults ok_env"
    by (simp_all add: first_req_def ok_env_def)
  have sid: "session_id first_req = ''s1''" by (simp add: first_req_def)
  have prior: "chat_history (prior_session Map.empty ''s1'') = []"
    by (simp add: prior_session_def new_session_def)
  from first_message_short_circuit [of first_req ok_env Map.empty] h sid prior
  show ?thesis by auto
qed


lemma chat_later:
  assumes "\<not> is_first_message req"
  shows "(load_faults e \<and> chat e req db = (Inr (fallback req), db, []))
   \<or> (\<not> load_faults e \<and>
       (\<exists>calls. chat e req db
          = (Inr (fallback req), db(session_id req \<mapsto> prior_session db (session_id req)), calls)))
   \<or> (\<not> load_faults e \<and> \<not> save_faults e \<and>
       (\<exists>ai p h calls. chat e req db
          = (Inr \<lparr>question = ai,
                   resp_is_complete = (detect_stop ai \<or> is_complete (prior_session db (session_id req))),
                   progress = compute_progress (length p),
                   resp_session_id = session_id req\<rparr>,
             db(session_id req \<mapsto> (prior_session db (session_id req))
                  \<lparr>chat_history := h, profile_data := p,
                   is_complete := (detect_stop ai \<or> is_complete (prior_session db (session_id req)))\<rparr>),
             calls)))"
proof (cases "load_faults e")
  case True
  with assms show ?thesis by (simp add: chat_def chat_try_later)
next
  case False
  define s where "s = prior_session db (session_id req)"
  define db1 where "db1 = db(session_id req \<mapsto> s)"
  have body: "chat_try e req db = later_message e req s db1"
    using assms False by (simp add: chat_try_later s_def db1_def)
  have saved: "(\<exists>calls'. (case reply_and_save e req s' db1 calls of
          (Inl f, db', cs) \<Rightarrow> (Inr (fallback req), db', cs)
        | (Inr r, db', cs) \<Rightarrow> (Inr r, db', cs)) = (Inr (fallback req), db1, calls'))
      \<or> (\<not> save_faults e \<and> (\<exists>ai p h calls'.
         (case reply_and_save e req s' db1 calls of
          (Inl f, db', cs) \<Rightarrow> (Inr (fallback req), db', cs)
        | (Inr r, db', cs) \<Rightarrow> (Inr r, db', cs))
          = (Inr \<lparr>question = ai, resp_is_complete = (detect_stop ai \<or> is_complete s),
                   progress = compute_progress (length p), resp_session_id = session_id req\<rparr>,
             db(session_id req \<mapsto> s\<lparr>chat_history := h, profile_data := p,
                   is_complete := (detect_stop ai \<or> is_complete s)\<rparr>), calls')))"
    if same: "is_complete s' = is_complete s" for s' calls
  proof (cases "save_faults e")
    case True
    then have "(case reply_and_save e req s' db1 calls of
          (Inl f, db', cs) \<Rightarrow> (Inr (fallback req), db', cs)
        | (Inr r, db', cs) \<Rightarrow> (Inr r, db', cs)) = (Inr (fallback req), db1, calls @ [GenerateCall])"
      unfolding db1_def by (simp add: reply_and_save_result Let_def)
    then show ?thesis by blast
  next
    case False
    then have "(case reply_and_save e req s' db1 calls of
          (Inl f, db', cs) \<Rightarrow> (Inr (fallback req), db', cs)
        | (Inr r, db', cs) \<Rightarrow> (Inr r, db', cs))
          = (Inr \<lparr>question = generate e s' (message req),
                   resp_is_complete = (detect_stop (generate e s' (message req)) \<or> is_complete s),
                   progress = compute_progress (length (profile_data s')),
                   resp_session_id = session_id req\<rparr>,
             db(session_id req \<mapsto> s\<lparr>chat_history := chat_history s'
                      @ [\<lparr>role = ''assistant'', content = generate e s' (message req)\<rparr>],
                   profile_data := profile_data s',
                   is_complete := (detect_stop (generate e s' (message req)) \<or> is_complete s)\<rparr>),
             calls @ [GenerateCall])"
      unfolding db1_def by (simp add: reply_and_save_result Let_def same)
    with False show ?thesis by blast
  qed
  have "(\<exists>calls. chat e req db = (Inr (fallback req), db1, calls))
      \<or> (\<not> save_faults e \<and> (\<exists>ai p h calls. chat e req db
          = (Inr \<lparr>question = ai, resp_is_complete = (detect_stop ai \<or> is_complete s),
                   progress = compute_progress (length p), resp_session_id = session_id req\<rparr>,
             db(session_id req \<mapsto> s\<lparr>chat_history := h, profile_data := p,
                   is_complete := (detect_stop ai \<or> is_complete s)\<rparr>), calls)))"
  proof (cases "py_strip (message req) \<noteq> []")
    case msg: True
    define s1 where "s1 = s\<lparr>chat_history := chat_history s @ [\<lparr>role = ''user'', content = message req\<rparr>]\<rparr>"
    show ?thesis
    proof (cases "items (extract_facts e s1 (message req))")
      case (Inl f)
      with msg have "chat e req db = (Inr (fallback req), db1, [ExtractCall])"
        by (simp add: chat_def body later_message_def Let_def s1_def)
      then show ?thesis by blast
    next
      case (Inr kvs)
      with msg have eq: "chat e req db =
          (case reply_and_save e req (s1\<lparr>profile_data := merge_facts (profile_data s1) kvs\<rparr>) db1 [ExtractCall] of
          (Inl f, db', cs) \<Rightarrow> (Inr (fallback req), db', cs)
        | (Inr r, db', cs) \<Rightarrow> (Inr r, db', cs))"
        by (simp add: chat_def body later_message_def Let_def s1_def)
      have keep: "is_complete (s1\<lparr>profile_data := merge_facts (profile_data s1) kvs\<rparr>) = is_complete s"
        by (simp add: s1_def)
      show ?thesis unfolding eq by (rule saved [OF keep])
    qed
  next
    case False
    then have eq: "chat e req db =
          (case reply_and_save e req s db1 [] of
          (Inl f, db', cs) \<Rightarrow> (Inr (fallback req), db', cs)
        | (Inr r, db', cs) \<Rightarrow> (Inr r, db', cs))"
      by (simp add: chat_def body later_message_def)
    show ?thesis unfolding eq by (rule saved [OF refl])
  qed
  with False show ?thesis unfolding s_def db1_def by blast
qed


lemma chat_storage_fault:
  assumes "load_faults e \<or> save_faults e"
  shows "fst (chat e req db) = Inr (fallback req)"
proof (cases "is_first_message req")
  case True
  with assms show ?thesis by (auto simp: chat_first)
next
  case False
  from chat_later [OF False, of e db] assms show ?thesis by auto
qed

lemma chat_load_fault_store: "load_faults e \<Longrightarrow> fst (snd (chat e req db)) = db"
  by (simp add: chat_def chat_try_def get_session_def)

lemma chat_other_sessions:
  assumes "sid \<noteq> session_id req"
  shows "fst (snd (chat e req db)) sid = db sid"
proof (cases "is_first_message req")
  case True
  with assms show ?thesis by (simp add: chat_first)
next
  case False
  from chat_later [OF False, of e db] assms show ?thesis by auto
qed

lemma chat_keeps_rows:
  assumes "db sid = Some row"
  shows "\<exists>row'. fst (snd (chat e req db)) sid = Some row'"
proof (cases "sid = session_id req")
  case False
  with assms show ?thesis by (simp add: chat_other_sessions)
next
  case same: True
  show ?thesis
  proof (cases "is_first_message req")
    case True
    with assms same show ?thesis by (simp add: chat_first)
  next
    case False
    from chat_later [OF False, of e db] assms same show ?thesis by auto
  qed
qed

lemma chat_keeps_complete:
  assumes "persisted_complete db sid" and "session_id req = sid \<longrightarrow> \<not> is_first_message req"
  shows "persisted_complete (fst (snd (chat e req db))) sid"
proof (cases "sid = session_id req")
  case False
  with assms(1) show ?thesis by (simp add: chat_other_sessions persisted_complete_def)
next
  case same: True
  with assms(2) have later: "\<not> is_first_message req" by simp
  from assms(1) same have prior: "is_complete (prior_session db (session_id req))"
    and present: "db(session_id req \<mapsto> prior_session db (session_id req)) = db"
    by (auto simp: persisted_complete_def prior_session_def split: option.splits)
  from chat_later [OF later, of e db] assms(1) same prior present show ?thesis
    by (auto simp: persisted_complete_def)
qed

lemma chat_returns_complete:
  assumes "persisted_complete db (session_id req)" and "\<not> is_first_message req"
  shows "fst (chat e req db) = Inr (fallback req)
         \<or> (\<exists>r. fst (chat e req db) = Inr r \<and> resp_is_complete r)"
proof -
  from assms(1) have prior: "is_complete (prior_session db (session_id req))"
    by (auto simp: persisted_complete_def prior_session_def split: option.splits)
  from chat_later [OF assms(2), of e db] prior show ?thesis by auto
qed

lemma run_turns_keeps_complete:
  "persisted_complete db sid \<Longrightarrow>
   (\<forall>t \<in> set turns. session_id (snd t) = sid \<longrightarrow> \<not> is_first_message (snd t)) \<Longrightarrow>
   persisted_complete (run_turns turns db) sid"
proof (induction turns arbitrary: db)
  case Nil
  then show ?case by simp
next
  case (Cons t turns)
  from Cons.prems have "persisted_complete (fst (snd (chat (fst t) (snd t) db))) sid"
    by (intro chat_keeps_complete) simp_all
  with Cons.IH Cons.prems(2) show ?case by simp
qed

text \<open>
  C2, as the code has it. Once the stored flag of a session is true, it stays true
  through every sequence of turns in which no turn for that session is flagged
  \<open>is_first_message\<close>; such a turn answers complete = true unless it ends in the
  fallback response; a turn flagged \<open>is_first_message\<close> answers complete = false.
\<close>

theorem completion_kept_by_later_turns:
  "(persisted_complete db sid
      \<and> (\<forall>t \<in> set turns. session_id (snd t) = sid \<longrightarrow> \<not> is_first_message (snd t))
      \<longrightarrow> persisted_complete (run_turns turns db) sid)
   \<and> (persisted_complete db (session_id req) \<and> \<not> is_first_message req
      \<longrightarrow> fst (chat e req db) = Inr (fallback req)
          \<or> (\<exists>r. fst (chat e req db) = Inr r \<and> resp_is_complete r))
   \<and> (is_first_message req \<longrightarrow> (\<exists>r. fst (chat e req db) = Inr r \<and> \<not> resp_is_complete r))"
proof -
  have first: "is_first_message req \<longrightarrow> (\<exists>r. fst (chat e req db) = Inr r \<and> \<not> resp_is_complete r)"
    by (simp add: chat_first fallback_def)
  with run_turns_keeps_complete [of db sid turns] chat_returns_complete [of db req e]
  show ?thesis by blast
qed

theorem completion_kept_by_later_turns_witness:
  "persisted_complete done_db ''s1'' \<and> \<not> is_first_message name_req
   \<and> persisted_complete (run_turns [(ok_env, name_req), (list_env, name_req)] done_db) ''s1''
   \<and> fst (chat ok_env name_req done_db)
       = Inr \<lparr>question = ''Nice! What year are you in?'', resp_is_complete = True, progress = 5,
              resp_session_id = ''s1''\<rparr>"
proof -
  have h1: "persisted_complete done_db ''s1''"
    by (simp add: persisted_complete_def done_db_def)
  have h2: "\<not> is_first_message name_req" "session_id name_req = ''s1''"
    by (simp_all add: name_req_def)
  have h3: "\<forall>t \<in> set [(ok_env, name_req), (list_env, name_req)].
              session_id (snd t) = ''s1'' \<longrightarrow> \<not> is_first_message (snd t)"
    using h2 by simp
  have answer: "fst (chat ok_env name_req done_db)
       = Inr \<lparr>question = ''Nice! What year are you in?'', resp_is_complete = True, progress = 5,
              resp_session_id = ''s1''\<rparr>"
    by code_simp
  from completion_kept_by_later_turns [of done_db "''s1''"
      "[(ok_env, name_req), (list_env, name_req)]" name_req ok_env] h1 h2 h3 answer
  show ?thesis by blast
qed


text \<open>
  C2 as stated fails: a turn flagged \<open>is_first_message\<close> on a complete session stores
  and answers complete = false.
\<close>

theorem completion_reset_by_first_message:
  "persisted_complete done_db ''s1''
   \<and> \<not> persisted_complete (fst (snd (chat ok_env first_req done_db))) ''s1''
   \<and> fst (chat ok_env first_req done_db)
       = Inr \<lparr>question = greeting, resp_is_complete = False, progress = 0, resp_session_id = ''s1''\<rparr>"
  by (simp add: chat_first first_req_def done_db_def ok_env_def persisted_complete_def
      prior_session_def)

text \<open>
  C6. Catch-all. \<open>chat\<close> always hands a response to its caller, and whenever a fault
  leaves the body of the \<open>try\<close> the response is the fallback: the apology, complete
  false, progress 0, and the session id of the request.
\<close>

theorem chat_always_responds:
  "(\<exists>r. fst (chat e req db) = Inr r)
   \<and> (\<forall>f. fst (chat_try e req db) = Inl f \<longrightarrow>
        fst (chat e req db)
          = Inr \<lparr>question = apology, resp_is_complete = False, progress = 0,
                 resp_session_id = session_id req\<rparr>)"
  by (cases "chat_try e req db" rule: prod_cases3)
     (auto simp: chat_def fallback_def split: sum.splits)

theorem chat_always_responds_witness:
  "fst (chat_try list_env name_req Map.empty) = Inl AttributeError
   \<and> fst (chat list_env name_req Map.empty)
       = Inr \<lparr>question = apology, resp_is_complete = False, progress = 0, resp_session_id = ''s1''\<rparr>"
proof -
  have fault: "fst (chat_try list_env name_req Map.empty) = Inl AttributeError"
    by code_simp
  have sid: "session_id name_req = ''s1''" by (simp add: name_req_def)
  from chat_always_responds [of list_env name_req Map.empty] fault sid
  show ?thesis by simp
qed


text \<open>
  C7, as the code has it. When the load or the save of a turn raises, \<open>chat\<close> does not
  pass the failure on: it answers with the fallback response; a raising load leaves
  the table as it was.
\<close>

theorem storage_fault_gives_fallback:
  "(load_faults e \<or> save_faults e \<longrightarrow>
      fst (chat e req db)
        = Inr \<lparr>question = apology, resp_is_complete = False, progress = 0,
               resp_session_id = session_id req\<rparr>)
   \<and> (load_faults e \<longrightarrow> fst (snd (chat e req db)) = db)"
  using chat_storage_fault [of e req db] chat_load_fault_store [of e req db]
  by (simp add: fallback_def)

theorem storage_fault_gives_fallback_witness:
  "save_faults save_fault_env
   \<and> fst (chat save_fault_env first_req Map.empty)
       = Inr \<lparr>question = apology, resp_is_complete = False, progress = 0, resp_session_id = ''s1''\<rparr>"
proof -
  have h: "save_faults save_fault_env" by (simp add: save_fault_env_def)
  have sid: "session_id first_req = ''s1''" by (simp add: first_req_def)
  from storage_fault_gives_fallback [of save_fault_env first_req Map.empty] h sid
  show ?thesis by simp
qed


text \<open>
  C7 as stated fails: with a raising load the caller gets the ordinary response
  shape, not a failure.
\<close>

theorem storage_fault_not_propagated:
  "load_faults load_fault_env
   \<and> fst (chat load_fault_env name_req done_db)
       = Inr \<lparr>question = apology, resp_is_complete = False, progress = 0, resp_session_id = ''s1''\<rparr>
   \<and> fst (chat load_fault_env name_req done_db) \<noteq> Inl StorageFault"
  by (simp add: chat_def chat_try_def get_session_def load_fault_env_def ok_env_def fallback_def
      name_req_def)

text \<open>
  C8, as the code has it. A stored session stays in the table through every chat
  turn, fetch, listing and health check and through the deletion of any other
  session; deleting its own id removes it and nothing else; and the start of the
  process empties the table.
\<close>

theorem sessions_removed_only_by_delete_or_startup:
  "(db sid = Some row \<and> op \<noteq> Startup \<and> op \<noteq> DeleteSession sid
      \<longrightarrow> (\<exists>row'. run_op op db sid = Some row'))
   \<and> run_op (DeleteSession sid) db sid = None
   \<and> (sid' \<noteq> sid \<longrightarrow> run_op (DeleteSession sid) db sid' = db sid')
   \<and> run_op Startup db sid = None"
proof -
  have "\<exists>row'. run_op op db sid = Some row'"
    if "db sid = Some row" "op \<noteq> Startup" "op \<noteq> DeleteSession sid"
    using that
  proof (cases op)
    case (Chat e req)
    with that(1) show ?thesis by (simp add: chat_keeps_rows)
  next
    case (GetSession faults sid')
    with that(1) show ?thesis
      by (auto simp: get_session_data_def get_session_def split: option.splits)
  next
    case (DeleteSession sid')
    with that show ?thesis by (simp add: delete_session_def)
  qed simp_all
  then show ?thesis by (simp add: delete_session_def init_db_def)
qed

theorem sessions_removed_only_by_delete_or_startup_witness:
  "done_db ''s1'' = Some \<lparr>sess_id = ''s1'', chat_history = [], profile_data = [], is_complete = True\<rparr>
   \<and> Chat ok_env first_req \<noteq> Startup \<and> Chat ok_env first_req \<noteq> DeleteSession ''s1''
   \<and> run_op (Chat ok_env first_req) done_db ''s1'' \<noteq> None
   \<and> ''s2'' \<noteq> ''s1'' \<and> run_op (DeleteSession ''s1'') done_db ''s2'' = done_db ''s2''"
proof -
  have h: "done_db ''s1''
             = Some \<lparr>sess_id = ''s1'', chat_history = [], profile_data = [], is_complete = True\<rparr>"
    by (simp add: done_db_def)
  from sessions_removed_only_by_delete_or_startup [of done_db "''s1''" _ "Chat ok_env first_req" "''s2''"] h
  show ?thesis by auto
qed


text \<open>C8 as stated fails: the start of the process removes a stored session.\<close>

theorem startup_drops_sessions:
  "done_db ''s1'' = Some \<lparr>sess_id = ''s1'', chat_history = [], profile_data = [], is_complete = True\<rparr>
   \<and> run_op Startup done_db ''s1'' = None"
  by (simp add: done_db_def init_db_def)

text \<open>
  C10. The fetch of a session is a writing read. For an id with no row, when the
  database does not raise, \<open>get_session_data\<close> answers with the empty session (empty
  transcript, empty profile, complete false) and leaves that session stored.
\<close>

theorem fetch_creates_session:
  "db sid = None \<and> \<not> faults \<longrightarrow>
     get_session_data faults sid db
       = Inr (\<lparr>sess_id = sid, chat_history = [], profile_data = [], is_complete = False\<rparr>,
              db(sid \<mapsto> \<lparr>sess_id = sid, chat_history = [], profile_data = [], is_complete = False\<rparr>))
     \<and> run_op (GetSession faults sid) db sid
       = Some \<lparr>sess_id = sid, chat_history = [], profile_data = [], is_complete = False\<rparr>"
  by (simp add: get_session_data_def get_session_def new_session_def)

theorem fetch_creates_session_witness:
  "done_db ''s2'' = None
   \<and> get_session_data False ''s2'' done_db
       = Inr (\<lparr>sess_id = ''s2'', chat_history = [], profile_data = [], is_complete = False\<rparr>,
              done_db(''s2'' \<mapsto> \<lparr>sess_id = ''s2'', chat_history = [], profile_data = [],
                                     is_complete = False\<rparr>))
   \<and> run_op (GetSession False ''s2'') done_db ''s2''
       = Some \<lparr>sess_id = ''s2'', chat_history = [], profile_data = [], is_complete = False\<rparr>"
proof -
  have h: "done_db ''s2'' = None" by (simp add: done_db_def)
  from fetch_creates_session [of done_db "''s2''" False] h show ?thesis by simp
qed

end
